theory Spec2Isabelle
  imports Main "HOL-Library.Multiset"
begin

section \<open>Identifiers and timestamps\<close>

text \<open>
  A BSON ObjectId is twelve bytes; \<open>str\<close> renders it as 24 lower-case hexadecimal
  digits, and the constructor \<open>ObjectId(text)\<close> reads a text of 24 hexadecimal digits
  (either case) back into the identifier. For any other text it raises \<open>InvalidId\<close> or
  builds a value that no stored document has as its \<open>_id\<close>; both are \<open>None\<close> here. An
  identifier is kept as its canonical lower-case rendering.
\<close>

datatype object_id = Oid string

fun str :: "object_id \<Rightarrow> string" where
  "str (Oid h) = h"

definition hexdigit :: "char \<Rightarrow> bool" where
  "hexdigit c \<longleftrightarrow> c \<in> set ''0123456789abcdefABCDEF''"

definition hex_lower :: "char \<Rightarrow> char" where
  "hex_lower c = (case map_of (zip ''ABCDEF'' ''abcdef'') c of None \<Rightarrow> c | Some l \<Rightarrow> l)"

definition ObjectId :: "string \<Rightarrow> object_id option" where
  \<comment> \<open>\<open>None\<close>: the text names no identifier\<close>
  "ObjectId text =
     (if length text = 24 \<and> list_all hexdigit text then Some (Oid (map hex_lower text))
      else None)"

text \<open>
  Timestamps are integers counting milliseconds, the resolution of a stored BSON date.
  \<open>isoformat\<close> is kept symbolic: the ISO-8601 text of an instant is the instant tagged.
\<close>

datatype iso_text = IsoFormat (instant: int)

definition isoformat :: "int \<Rightarrow> iso_text" where
  "isoformat t = IsoFormat t"

definition timedelta_days :: "int \<Rightarrow> int" where
  "timedelta_days n = n * 86400000"

section \<open>Documents (schemas.py) and the store\<close>

text \<open>
  A stored document carries the fields of its schema class together with \<open>_id\<close>
  (here \<open>oid\<close>), \<open>created_at\<close> and \<open>updated_at\<close>.
\<close>

record meta =
  oid :: object_id
  created_at :: int
  updated_at :: int

record post = meta +
  title :: string
  description :: string
  link :: "string option"
  tags :: "string list"
  author_name :: "string option"

record child = meta +
  post_id :: string

record comment = child +
  comment_author_name :: "string option"
  content :: string

record vote = child +
  client_id :: string

record store =
  posts :: "post list"
  comments :: "comment list"
  votes :: "vote list"

datatype error =
    HTTPException nat string
  | RequestValidationError "string list"
  | DuplicateKeyError
  | OverflowError

subsection \<open>Collection primitives of the driver\<close>

definition find_one :: "('d \<Rightarrow> bool) \<Rightarrow> 'd list \<Rightarrow> 'd option" where
  "find_one flt coll = List.find flt coll"

fun delete_one :: "('d \<Rightarrow> bool) \<Rightarrow> 'd list \<Rightarrow> 'd list" where
  "delete_one flt [] = []"
| "delete_one flt (d # ds) = (if flt d then ds else d # delete_one flt ds)"

definition count_documents :: "('d \<Rightarrow> bool) \<Rightarrow> 'd list \<Rightarrow> nat" where
  "count_documents flt coll = length (filter flt coll)"

definition insert_one :: "'a meta_scheme \<Rightarrow> 'a meta_scheme list \<Rightarrow> error + 'a meta_scheme list" where
  \<comment> \<open>the store keeps \<open>_id\<close> unique within a collection\<close>
  "insert_one d coll = (if oid d \<in> oid ` set coll then Inl DuplicateKeyError else Inr (coll @ [d]))"

subsection \<open>Helpers of database.py\<close>

definition create_document ::
  "'a meta_scheme list \<Rightarrow> (object_id \<Rightarrow> int \<Rightarrow> int \<Rightarrow> 'a meta_scheme) \<Rightarrow> int \<Rightarrow> object_id
     \<Rightarrow> error + (string \<times> 'a meta_scheme list)" where
  \<comment> \<open>Modelled from the spec: \<open>create_document\<close> of database.py, which is not among the
      sources. The spec has every creation stamp the record with the current time
      (\<open>created_at = updated_at = now\<close>), insert it and return the new identifier as text.
      \<open>data\<close> builds the document from the schema fields; \<open>new\<close> is the identifier the
      driver generates for the insertion.\<close>
  "create_document coll data now new =
     (case insert_one (data new now now) coll of
        Inl e \<Rightarrow> Inl e
      | Inr coll' \<Rightarrow> Inr (str new, coll'))"

definition get_documents :: "'d list \<Rightarrow> ('d \<Rightarrow> bool) \<Rightarrow> 'd list" where
  \<comment> \<open>Modelled from the spec: \<open>get_documents\<close> of database.py, which is not among the
      sources. The spec's store interface has \<open>find(collection, filter)\<close> return the
      sequence of documents that match the filter.\<close>
  "get_documents coll flt = filter flt coll"

section \<open>Request models (main.py)\<close>

record PostCreate_body =
  body_title :: "string option"
  body_description :: "string option"
  body_link :: "string option"
  body_tags :: "string list option"
  body_author_name :: "string option"

record PostCreate =
  pc_title :: string
  pc_description :: string
  pc_link :: "string option"
  pc_tags :: "string list"
  pc_author_name :: "string option"

record CommentCreate =
  cc_post_id :: string
  cc_content :: string
  cc_author_name :: "string option"

record VoteToggle =
  vt_post_id :: string
  vt_client_id :: string

definition missing :: "string \<Rightarrow> 'a option \<Rightarrow> string list" where
  "missing name v = (case v of None \<Rightarrow> [name] | Some _ \<Rightarrow> [])"

definition validate_PostCreate :: "PostCreate_body \<Rightarrow> error + PostCreate" where
  \<comment> \<open>class \<open>PostCreate\<close>: \<open>title\<close> and \<open>description\<close> are required texts, \<open>link\<close> and
      \<open>author_name\<close> default to \<open>None\<close>, \<open>tags\<close> to the empty list. No field has a length
      constraint.\<close>
  "validate_PostCreate b =
     (case (body_title b, body_description b) of
        (Some t, Some d) \<Rightarrow>
          Inr \<lparr>pc_title = t, pc_description = d, pc_link = body_link b,
               pc_tags = (case body_tags b of None \<Rightarrow> [] | Some ts \<Rightarrow> ts),
               pc_author_name = body_author_name b\<rparr>
      | _ \<Rightarrow> Inl (RequestValidationError
                 (missing ''title'' (body_title b) @ missing ''description'' (body_description b))))"

definition PostSchema :: "PostCreate \<Rightarrow> object_id \<Rightarrow> int \<Rightarrow> int \<Rightarrow> post" where
  "PostSchema p i c u =
     \<lparr>oid = i, created_at = c, updated_at = u, title = pc_title p, description = pc_description p,
      link = pc_link p, tags = pc_tags p, author_name = pc_author_name p\<rparr>"

definition CommentSchema :: "CommentCreate \<Rightarrow> object_id \<Rightarrow> int \<Rightarrow> int \<Rightarrow> comment" where
  "CommentSchema p i c u =
     \<lparr>oid = i, created_at = c, updated_at = u, post_id = cc_post_id p,
      comment_author_name = cc_author_name p, content = cc_content p\<rparr>"

definition VoteSchema :: "VoteToggle \<Rightarrow> object_id \<Rightarrow> int \<Rightarrow> int \<Rightarrow> vote" where
  "VoteSchema p i c u =
     \<lparr>oid = i, created_at = c, updated_at = u, post_id = vt_post_id p, client_id = vt_client_id p\<rparr>"

section \<open>Handlers that write\<close>

text \<open>
  The global \<open>db\<close> is \<open>None\<close> when the store is not configured. Every handler takes it and
  returns its response or error together with \<open>db\<close> as it leaves it. \<open>now\<close> is the clock
  reading and \<open>new\<close> the identifier the driver generates, both inputs of the environment.
\<close>

definition post_exists :: "store \<Rightarrow> string \<Rightarrow> post option" where
  \<comment> \<open>the block under \<open># validate post exists\<close>: any exception gives \<open>None\<close>\<close>
  "post_exists s text =
     (case ObjectId text of
        None \<Rightarrow> None
      | Some i \<Rightarrow> find_one (\<lambda>p. oid p = i) (posts s))"

definition create_post ::
  "store option \<Rightarrow> PostCreate_body \<Rightarrow> int \<Rightarrow> object_id \<Rightarrow> (error + string) \<times> store option" where
  "create_post db body now new =
     (case validate_PostCreate body of
        Inl e \<Rightarrow> (Inl e, db)
      | Inr payload \<Rightarrow>
          (case db of
             None \<Rightarrow> (Inl (HTTPException 500 ''Database not configured''), db)
           | Some s \<Rightarrow>
               (case create_document (posts s) (PostSchema payload) now new of
                  Inl e \<Rightarrow> (Inl e, db)
                | Inr (pid, coll) \<Rightarrow> (Inr pid, Some (s\<lparr>posts := coll\<rparr>)))))"

definition add_comment ::
  "store option \<Rightarrow> CommentCreate \<Rightarrow> int \<Rightarrow> object_id \<Rightarrow> (error + string) \<times> store option" where
  "add_comment db payload now new =
     (case db of
        None \<Rightarrow> (Inl (HTTPException 500 ''Database not configured''), db)
      | Some s \<Rightarrow>
          (case post_exists s (cc_post_id payload) of
             None \<Rightarrow> (Inl (HTTPException 404 ''Post not found''), db)
           | Some _ \<Rightarrow>
               (case create_document (comments s) (CommentSchema payload) now new of
                  Inl e \<Rightarrow> (Inl e, db)
                | Inr (cid, coll) \<Rightarrow> (Inr cid, Some (s\<lparr>comments := coll\<rparr>)))))"

datatype toggle_response = Unvoted | Voted string

definition toggle_vote ::
  "store option \<Rightarrow> VoteToggle \<Rightarrow> int \<Rightarrow> object_id \<Rightarrow> (error + toggle_response) \<times> store option" where
  "toggle_vote db payload now new =
     (case db of
        None \<Rightarrow> (Inl (HTTPException 500 ''Database not configured''), db)
      | Some s \<Rightarrow>
          (case post_exists s (vt_post_id payload) of
             None \<Rightarrow> (Inl (HTTPException 404 ''Post not found''), db)
           | Some _ \<Rightarrow>
               (case find_one (\<lambda>v. post_id v = vt_post_id payload \<and> client_id v = vt_client_id payload)
                       (votes s) of
                  Some existing \<Rightarrow>
                    (Inr Unvoted, Some (s\<lparr>votes := delete_one (\<lambda>v. oid v = oid existing) (votes s)\<rparr>))
                | None \<Rightarrow>
                    (case create_document (votes s) (VoteSchema payload) now new of
                       Inl e \<Rightarrow> (Inl e, db)
                     | Inr (vid, coll) \<Rightarrow> (Inr (Voted vid), Some (s\<lparr>votes := coll\<rparr>))))))"

section \<open>Rendering documents for a response\<close>

text \<open>
  \<open>to_str_id\<close> copies a document, replaces the key \<open>_id\<close> by \<open>id\<close> holding the identifier
  as text, and replaces every top-level date by its ISO text; nested documents stay as
  they are. It is written out once for each shape of document the handlers pass to it.
\<close>

record post_agg = post +
  votes_docs :: "vote list"
  comments_docs :: "comment list"
  votes_count :: nat
  comments_count :: nat

record post_item =
  item_id :: string
  item_created_at :: iso_text
  item_updated_at :: iso_text
  item_title :: string
  item_description :: string
  item_link :: "string option"
  item_tags :: "string list"
  item_author_name :: "string option"
  item_votes_docs :: "vote list"
  item_comments_docs :: "comment list"
  item_votes_count :: nat
  item_comments_count :: nat

record comment_item =
  citem_id :: string
  citem_created_at :: iso_text
  citem_updated_at :: iso_text
  citem_post_id :: string
  citem_author_name :: "string option"
  citem_content :: string

definition to_str_id :: "post_agg \<Rightarrow> post_item" where
  "to_str_id d =
     \<lparr>item_id = str (oid d), item_created_at = isoformat (created_at d),
      item_updated_at = isoformat (updated_at d), item_title = title d,
      item_description = description d, item_link = link d, item_tags = tags d,
      item_author_name = author_name d, item_votes_docs = votes_docs d,
      item_comments_docs = comments_docs d, item_votes_count = votes_count d,
      item_comments_count = comments_count d\<rparr>"

definition to_str_id_comment :: "comment \<Rightarrow> comment_item" where
  "to_str_id_comment d =
     \<lparr>citem_id = str (oid d), citem_created_at = isoformat (created_at d),
      citem_updated_at = isoformat (updated_at d), citem_post_id = post_id d,
      citem_author_name = comment_author_name d, citem_content = content d\<rparr>"

section \<open>The listing query\<close>

datatype timeframe = Week | Month | All_time

datatype sort_by = Votes | Comments | Latest

text \<open>
  Each \<open>$lookup\<close> stage of \<open>list_posts\<close> names \<open>localField: "_id"\<close> and
  \<open>foreignField: "post_id"\<close> together with \<open>let\<close> and \<open>pipeline\<close>. This is the concise
  form of a correlated subquery (MongoDB 5.0 and later; earlier servers reject the stage):
  the store first keeps the foreign documents whose \<open>post_id\<close> equals the post's \<open>_id\<close> as
  BSON values, and runs the sub-pipeline on those. The sub-pipeline keeps the documents
  whose \<open>post_id\<close> equals \<open>$toString\<close> of \<open>$$pid\<close>, where \<open>pid\<close> is \<open>$toString\<close> of the
  post's \<open>_id\<close>. A stored \<open>_id\<close> is an ObjectId and a stored \<open>post_id\<close> is a string
  (\<open>post_id: str\<close> in schemas.py); BSON values of different types are equal only among
  numbers.
\<close>

datatype bson = BObjectId object_id | BString string

definition toString :: "bson \<Rightarrow> string" where
  "toString v = (case v of BObjectId i \<Rightarrow> str i | BString t \<Rightarrow> t)"

definition lookup :: "post \<Rightarrow> 'a child_scheme list \<Rightarrow> 'a child_scheme list" where
  "lookup p foreign =
     (let pid = toString (BObjectId (oid p))
      in filter (\<lambda>d. post_id d = toString (BString pid))
           (filter (\<lambda>d. BString (post_id d) = BObjectId (oid p)) foreign))"

definition addFields :: "store \<Rightarrow> post \<Rightarrow> post_agg" where
  \<comment> \<open>the two \<open>$lookup\<close> stages and the \<open>$addFields\<close> stage, for one post\<close>
  "addFields s p =
     (let vd = lookup p (votes s); cd = lookup p (comments s)
      in \<lparr>oid = oid p, created_at = created_at p, updated_at = updated_at p, title = title p,
          description = description p, link = link p, tags = tags p, author_name = author_name p,
          votes_docs = vd, comments_docs = cd, votes_count = length vd,
          comments_count = length cd\<rparr>)"

fun precedes :: "sort_by \<Rightarrow> post_agg \<Rightarrow> post_agg \<Rightarrow> bool" where
  "precedes Votes a b \<longleftrightarrow>
     votes_count b < votes_count a \<or> (votes_count a = votes_count b \<and> created_at b \<le> created_at a)"
| "precedes Comments a b \<longleftrightarrow>
     comments_count b < comments_count a \<or>
     (comments_count a = comments_count b \<and> created_at b \<le> created_at a)"
| "precedes Latest a b \<longleftrightarrow> created_at b \<le> created_at a"

fun insort_desc :: "sort_by \<Rightarrow> post_agg \<Rightarrow> post_agg list \<Rightarrow> post_agg list" where
  "insort_desc k x [] = [x]"
| "insort_desc k x (y # ys) = (if precedes k x y then x # y # ys else y # insort_desc k x ys)"

definition sort_stage :: "sort_by \<Rightarrow> post_agg list \<Rightarrow> post_agg list" where
  \<comment> \<open>\<open>$sort\<close>; documents with equal keys keep the order of the collection\<close>
  "sort_stage k ds = foldr (insort_desc k) ds []"

definition matches :: "int option \<Rightarrow> 'a meta_scheme \<Rightarrow> bool" where
  \<comment> \<open>whether a document passes the filter\<close>
  "matches fq d = (case fq of None \<Rightarrow> True | Some since \<Rightarrow> since \<le> created_at d)"

definition filter_q :: "timeframe \<Rightarrow> int \<Rightarrow> int option" where
  \<comment> \<open>the time-window filter: \<open>None\<close> is \<open>{}\<close>, \<open>Some since\<close> is
      \<open>{"created_at": {"$gte": since}}\<close>\<close>
  "filter_q tf now =
     (if tf \<noteq> All_time
      then Some (if tf = Week then now - timedelta_days 7 else now - timedelta_days 30)
      else None)"

definition sorted_stage_output :: "store \<Rightarrow> int option \<Rightarrow> sort_by \<Rightarrow> post_agg list" where
  \<comment> \<open>the pipeline up to and including \<open>$sort\<close>\<close>
  "sorted_stage_output s fq k = sort_stage k (map (addFields s) (filter (matches fq) (posts s)))"

definition aggregate :: "store \<Rightarrow> int option \<Rightarrow> sort_by \<Rightarrow> nat \<Rightarrow> nat \<Rightarrow> post_agg list" where
  \<comment> \<open>the whole pipeline: \<open>$skip\<close> and \<open>$limit\<close> after the sort\<close>
  "aggregate s fq k skip limit = take limit (drop skip (sorted_stage_output s fq k))"

record listing =
  items :: "post_item list"
  total :: nat
  page :: int
  page_size :: int

definition Query :: "string \<Rightarrow> int \<Rightarrow> (int \<Rightarrow> bool) \<Rightarrow> int option \<Rightarrow> string list \<times> int" where
  \<comment> \<open>a numeric query parameter: the default when omitted, the name reported when the
      value breaks the bound\<close>
  "Query name dflt ok v =
     (case v of None \<Rightarrow> ([], dflt) | Some n \<Rightarrow> (if ok n then [] else [name], n))"

definition int64_max :: int where
  \<comment> \<open>the largest integer the driver encodes; a larger one in a command raises
      \<open>OverflowError\<close>\<close>
  "int64_max = 9223372036854775807"

definition list_posts ::
  "store option \<Rightarrow> int option \<Rightarrow> int option \<Rightarrow> timeframe option \<Rightarrow> sort_by option \<Rightarrow> int
     \<Rightarrow> error + listing" where
  "list_posts db page_arg page_size_arg timeframe_arg sort_by_arg now =
     (let (e1, pg) = Query ''page'' 1 (\<lambda>n. 1 \<le> n) page_arg;
          (e2, ps) = Query ''page_size'' 8 (\<lambda>n. 1 \<le> n \<and> n \<le> 50) page_size_arg;
          tf = (case timeframe_arg of None \<Rightarrow> All_time | Some t \<Rightarrow> t);
          sb = (case sort_by_arg of None \<Rightarrow> Votes | Some k \<Rightarrow> k)
      in if e1 @ e2 \<noteq> [] then Inl (RequestValidationError (e1 @ e2))
         else (case db of
                 None \<Rightarrow> Inl (HTTPException 500 ''Database not configured'')
               | Some s \<Rightarrow>
                   (let fq = filter_q tf now;
                        skip = (pg - 1) * ps
                    in if int64_max < skip then Inl OverflowError
                       else (let docs = aggregate s fq sb (nat skip) (nat ps)
                             in Inr \<lparr>items = map to_str_id docs,
                                     total = count_documents (matches fq) (posts s),
                                     page = pg, page_size = ps\<rparr>))))"

definition list_comments :: "store option \<Rightarrow> string \<Rightarrow> error + comment_item list" where
  "list_comments db pid =
     (case db of
        None \<Rightarrow> Inl (HTTPException 500 ''Database not configured'')
      | Some s \<Rightarrow> Inr (map to_str_id_comment (get_documents (comments s) (\<lambda>c. post_id c = pid))))"

section \<open>The service as a state machine\<close>

datatype request =
    ListPosts "int option" "int option" "timeframe option" "sort_by option"
  | CreatePost PostCreate_body
  | AddComment CommentCreate
  | ToggleVote VoteToggle
  | ListComments string
  | Root
  | TestDatabase

fun step :: "store option \<Rightarrow> request \<Rightarrow> int \<Rightarrow> object_id \<Rightarrow> store option" where
  "step db (CreatePost body) now new = snd (create_post db body now new)"
| "step db (AddComment payload) now new = snd (add_comment db payload now new)"
| "step db (ToggleVote payload) now new = snd (toggle_vote db payload now new)"
| "step db (ListPosts _ _ _ _) now new = db"
| "step db (ListComments _) now new = db"
| "step db Root now new = db"
| "step db TestDatabase now new = db"

definition vote_key :: "vote \<Rightarrow> string \<times> string" where
  "vote_key v = (post_id v, client_id v)"

definition one_vote_per_pair :: "store option \<Rightarrow> bool" where
  "one_vote_per_pair db = (case db of None \<Rightarrow> True | Some s \<Rightarrow> distinct (map vote_key (votes s)))"

section \<open>Properties as the specification words them\<close>



definition text_count :: "string \<Rightarrow> 'a child_scheme list \<Rightarrow> nat" where
  \<comment> \<open>the number of records whose \<open>post_id\<close> is the given text\<close>
  "text_count pid coll = length (filter (\<lambda>d. post_id d = pid) coll)"

definition comments_reference_posts :: "store \<Rightarrow> bool" where
  \<comment> \<open>the data model's rule that a comment references a post that exists\<close>
  "comments_reference_posts s = list_all (\<lambda>c. post_exists s (post_id c) \<noteq> None) (comments s)"

subsection \<open>Sample data\<close>

definition id_a :: object_id where "id_a = Oid ''0123456789abcdef01234567''"
definition id_b :: object_id where "id_b = Oid ''89abcdef0123456789abcdef''"
definition id_c :: object_id where "id_c = Oid ''aaaaaaaaaaaaaaaaaaaaaaaa''"
definition id_d :: object_id where "id_d = Oid ''bbbbbbbbbbbbbbbbbbbbbbbb''"
definition id_e :: object_id where "id_e = Oid ''cccccccccccccccccccccccc''"

definition sample_post :: "object_id \<Rightarrow> int \<Rightarrow> string \<Rightarrow> post" where
  "sample_post i t name =
     \<lparr>oid = i, created_at = t, updated_at = t, title = name, description = ''pitch'',
      link = None, tags = [], author_name = None\<rparr>"

definition sample_vote :: "object_id \<Rightarrow> string \<Rightarrow> string \<Rightarrow> vote" where
  "sample_vote i pid cid = \<lparr>oid = i, created_at = 5, updated_at = 5, post_id = pid, client_id = cid\<rparr>"

definition sample_comment :: "object_id \<Rightarrow> string \<Rightarrow> comment" where
  "sample_comment i pid =
     \<lparr>oid = i, created_at = 6, updated_at = 6, post_id = pid, comment_author_name = Some ''Guest'',
      content = ''Love this!''\<rparr>"

definition sample_store :: store where
  "sample_store =
     \<lparr>posts = [sample_post id_a 100000000 ''A'', sample_post id_b 900000000 ''B'',
               sample_post id_c 500000000 ''C''],
      comments = [sample_comment id_d (str id_a)],
      votes = [sample_vote id_d (str id_b) ''c1'']\<rparr>"

definition ranking_store :: store where
  \<comment> \<open>an older post with two votes and two comments, a newer post with none\<close>
  "ranking_store =
     \<lparr>posts = [sample_post id_a 10 ''A'', sample_post id_b 20 ''B''],
      comments = [sample_comment id_c (str id_a), sample_comment id_d (str id_a)],
      votes = [sample_vote id_c (str id_a) ''c1'', sample_vote id_d (str id_a) ''c2'']\<rparr>"

definition empty_store :: store where
  "empty_store = \<lparr>posts = [], comments = [], votes = []\<rparr>"

definition body_XY :: PostCreate_body where
  "body_XY = \<lparr>body_title = Some ''X'', body_description = Some ''Y'', body_link = None,
               body_tags = None, body_author_name = None\<rparr>"

definition body_empty_title :: PostCreate_body where
  "body_empty_title = \<lparr>body_title = Some [], body_description = Some ''Y'', body_link = None,
               body_tags = None, body_author_name = None\<rparr>"

section \<open>Facts about the collection primitives\<close>

lemma find_one_None: "find_one flt coll = None \<longleftrightarrow> (\<forall>d \<in> set coll. \<not> flt d)"
  by (auto simp: find_one_def find_None_iff)

lemma find_one_Some: "find_one flt coll = Some d \<Longrightarrow> d \<in> set coll \<and> flt d"
  by (auto simp: find_one_def find_Some_iff)

lemma delete_one_append_new:
  "\<forall>d \<in> set coll. \<not> flt d \<Longrightarrow> flt x \<Longrightarrow> delete_one flt (coll @ [x]) = coll"
  by (induction coll) auto

lemma find_one_append_new:
  "\<forall>d \<in> set coll. \<not> flt d \<Longrightarrow> flt x \<Longrightarrow> find_one flt (coll @ [x]) = Some x"
  by (induction coll) (auto simp: find_one_def)

lemma find_one_append_old:
  "find_one flt coll = Some d \<Longrightarrow> find_one flt (coll @ rest) = Some d"
  by (induction coll) (auto simp: find_one_def)

lemma set_delete_one: "set (delete_one flt coll) \<subseteq> set coll"
  by (induction coll) auto

lemma distinct_map_delete_one:
  "distinct (map f coll) \<Longrightarrow> distinct (map f (delete_one flt coll))"
proof (induction coll)
  case Nil
  then show ?case by simp
next
  case (Cons d ds)
  have "f d \<notin> f ` set (delete_one flt ds)" if "f d \<notin> f ` set ds"
    using that set_delete_one [of flt ds] by blast
  with Cons show ?case by auto
qed

lemma create_document_cases:
  "create_document coll data now new = Inl DuplicateKeyError \<and> oid (data new now now) \<in> oid ` set coll
   \<or> create_document coll data now new = Inr (str new, coll @ [data new now now])
      \<and> oid (data new now now) \<notin> oid ` set coll"
  by (simp add: create_document_def insert_one_def)

lemma post_exists_posts: "posts s' = posts s \<Longrightarrow> post_exists s' text = post_exists s text"
  by (simp add: post_exists_def cong: option.case_cong)

lemma post_exists_None:
  "post_exists s text = None \<longleftrightarrow> (\<forall>p \<in> set (posts s). ObjectId text \<noteq> Some (oid p))"
  by (auto simp: post_exists_def find_one_None split: option.splits)

lemma malformed_never_resolves: "ObjectId text = None \<Longrightarrow> post_exists s text = None"
  by (simp add: post_exists_def)

lemmas sample_defs =
  sample_store_def sample_post_def sample_vote_def sample_comment_def
  id_a_def id_b_def id_c_def id_d_def id_e_def

lemmas ObjectId_eval = ObjectId_def hexdigit_def hex_lower_def

section \<open>Vote toggle\<close>

text \<open>
  C5. For an existing post and any client, two toggle calls in sequence, starting from a
  store with no live vote for the pair, answer "voted" and then "unvoted", leave no live
  vote for the pair, and leave the store as it was before the first call. The identifier
  generated for the new vote is one the vote collection does not hold yet.
\<close>

theorem toggle_vote_twice:
  assumes existing: "post_exists s (vt_post_id payload) \<noteq> None"
    and no_vote: "\<forall>v \<in> set (votes s). \<not> (post_id v = vt_post_id payload \<and> client_id v = vt_client_id payload)"
    and fresh: "new1 \<notin> oid ` set (votes s)"
  shows "\<exists>s1. toggle_vote (Some s) payload now1 new1 = (Inr (Voted (str new1)), Some s1)
            \<and> toggle_vote (Some s1) payload now2 new2 = (Inr Unvoted, Some s)
            \<and> count_documents (\<lambda>v. post_id v = vt_post_id payload \<and> client_id v = vt_client_id payload) (votes s) = 0"
proof -
  let ?m = "\<lambda>v. post_id v = vt_post_id payload \<and> client_id v = vt_client_id payload"
  let ?v = "VoteSchema payload new1 now1 now1"
  let ?s1 = "s\<lparr>votes := votes s @ [?v]\<rparr>"
  obtain p where p: "post_exists s (vt_post_id payload) = Some p"
    using existing by blast
  have none: "find_one ?m (votes s) = None"
    using no_vote by (simp add: find_one_None)
  have ins: "create_document (votes s) (VoteSchema payload) now1 new1 = Inr (str new1, votes s @ [?v])"
    using fresh by (simp add: create_document_def insert_one_def VoteSchema_def)
  have first: "toggle_vote (Some s) payload now1 new1 = (Inr (Voted (str new1)), Some ?s1)"
    by (simp add: toggle_vote_def p none ins)
  have p1: "post_exists ?s1 (vt_post_id payload) = Some p"
    using p post_exists_posts [of ?s1 s] by simp
  have m: "?m ?v" by (simp add: VoteSchema_def)
  have found: "find_one ?m (votes s @ [?v]) = Some ?v"
    using no_vote m by (intro find_one_append_new) auto
  have "\<forall>d \<in> set (votes s). \<not> oid d = oid ?v"
    using fresh by (auto simp: VoteSchema_def)
  then have del: "delete_one (\<lambda>v. oid v = oid ?v) (votes s @ [?v]) = votes s"
    by (intro delete_one_append_new) auto
  have second: "toggle_vote (Some ?s1) payload now2 new2 = (Inr Unvoted, Some s)"
    unfolding toggle_vote_def by (simp add: p1 found del)
  have zero: "count_documents ?m (votes s) = 0"
    using no_vote by (simp add: count_documents_def)
  from first second zero show ?thesis by blast
qed

theorem toggle_vote_twice_witness:
  "post_exists sample_store (vt_post_id \<lparr>vt_post_id = str id_a, vt_client_id = ''c1''\<rparr>) \<noteq> None
   \<and> id_e \<notin> oid ` set (votes sample_store)
   \<and> (\<exists>s1. toggle_vote (Some sample_store) \<lparr>vt_post_id = str id_a, vt_client_id = ''c1''\<rparr> 7 id_e
               = (Inr (Voted (str id_e)), Some s1)
          \<and> toggle_vote (Some s1) \<lparr>vt_post_id = str id_a, vt_client_id = ''c1''\<rparr> 8 id_c
               = (Inr Unvoted, Some sample_store))"
proof -
  let ?pl = "\<lparr>vt_post_id = str id_a, vt_client_id = ''c1''\<rparr>"
  have h1: "post_exists sample_store (vt_post_id ?pl) \<noteq> None"
    by (simp add: post_exists_def find_one_def ObjectId_eval sample_defs)
  have h2: "\<forall>v \<in> set (votes sample_store). \<not> (post_id v = vt_post_id ?pl \<and> client_id v = vt_client_id ?pl)"
    by (simp add: sample_defs)
  have h3: "id_e \<notin> oid ` set (votes sample_store)"
    by (simp add: sample_defs)
  from toggle_vote_twice [OF h1 h2 h3, of 7 8 id_c] h1 h3 show ?thesis
    by blast
qed

text \<open>
  The steps that do not touch the vote collection, and the toggle itself, keep the pairs
  \<open>(post_id, client_id)\<close> of the live votes distinct.
\<close>

lemma toggle_vote_keeps_pairs:
  assumes "one_vote_per_pair db"
  shows "one_vote_per_pair (snd (toggle_vote db payload now new))"
proof (cases db)
  case None
  then show ?thesis by (simp add: toggle_vote_def one_vote_per_pair_def)
next
  case (Some s)
  let ?m = "\<lambda>v. post_id v = vt_post_id payload \<and> client_id v = vt_client_id payload"
  from assms Some have d: "distinct (map vote_key (votes s))"
    by (simp add: one_vote_per_pair_def)
  show ?thesis
  proof (cases "post_exists s (vt_post_id payload)")
    case None
    with Some assms show ?thesis by (simp add: toggle_vote_def)
  next
    case found: (Some p)
    show ?thesis
    proof (cases "find_one ?m (votes s)")
      case (Some existing)
      with \<open>db = Some s\<close> found d show ?thesis
        by (simp add: toggle_vote_def one_vote_per_pair_def distinct_map_delete_one)
    next
      case None
      then have absent: "vote_key (VoteSchema payload new now now) \<notin> vote_key ` set (votes s)"
        by (auto simp: find_one_None vote_key_def VoteSchema_def)
      from create_document_cases [of "votes s" "VoteSchema payload" now new]
      show ?thesis
      proof (elim disjE conjE)
        assume "create_document (votes s) (VoteSchema payload) now new = Inl DuplicateKeyError"
        with \<open>db = Some s\<close> found None assms show ?thesis
          by (simp add: toggle_vote_def)
      next
        assume "create_document (votes s) (VoteSchema payload) now new
                  = Inr (str new, votes s @ [VoteSchema payload new now now])"
        with \<open>db = Some s\<close> found None d absent show ?thesis
          by (simp add: toggle_vote_def one_vote_per_pair_def)
      qed
    qed
  qed
qed

lemma create_post_keeps_votes:
  "snd (create_post db body now new) = Some s' \<Longrightarrow> \<exists>s. db = Some s \<and> votes s' = votes s \<and> comments s' = comments s"
  by (auto simp: create_post_def split: sum.splits option.splits prod.splits)

lemma add_comment_keeps_votes:
  "snd (add_comment db payload now new) = Some s' \<Longrightarrow> \<exists>s. db = Some s \<and> votes s' = votes s \<and> posts s' = posts s"
  by (auto simp: add_comment_def split: sum.splits option.splits prod.splits)

text \<open>
  C6. Under sequential execution every operation of the service keeps the invariant that
  each pair \<open>(post_id, client_id)\<close> has at most one live vote in the store.
\<close>

theorem step_keeps_one_vote_per_pair:
  assumes "one_vote_per_pair db"
  shows "one_vote_per_pair (step db req now new)"
proof (cases req)
  case (CreatePost body)
  show ?thesis
  proof (cases "snd (create_post db body now new)")
    case None
    with CreatePost show ?thesis by (simp add: one_vote_per_pair_def)
  next
    case (Some s')
    from create_post_keeps_votes [OF Some] assms CreatePost Some show ?thesis
      by (auto simp: one_vote_per_pair_def)
  qed
next
  case (AddComment payload)
  show ?thesis
  proof (cases "snd (add_comment db payload now new)")
    case None
    with AddComment show ?thesis by (simp add: one_vote_per_pair_def)
  next
    case (Some s')
    from add_comment_keeps_votes [OF Some] assms AddComment Some show ?thesis
      by (auto simp: one_vote_per_pair_def)
  qed
next
  case (ToggleVote payload)
  with assms show ?thesis by (simp add: toggle_vote_keeps_pairs)
qed (use assms in simp_all)

theorem step_keeps_one_vote_per_pair_witness:
  "one_vote_per_pair (Some sample_store)
   \<and> one_vote_per_pair (step (Some sample_store) (ToggleVote \<lparr>vt_post_id = str id_b, vt_client_id = ''c1''\<rparr>) 7 id_e)"
proof -
  have h: "one_vote_per_pair (Some sample_store)"
    by (simp add: one_vote_per_pair_def vote_key_def sample_defs)
  from step_keeps_one_vote_per_pair [OF h] h show ?thesis by blast
qed

section \<open>Requests against a post that does not exist\<close>

text \<open>
  C7. A comment creation or a vote toggle whose \<open>post_id\<close> resolves to no stored post,
  be it the text of an absent identifier or no well-formed identifier at all, fails with
  the not-found error and leaves the store as it was.
\<close>

theorem unknown_post_is_not_found:
  assumes "\<forall>p \<in> set (posts s). ObjectId (cc_post_id c) \<noteq> Some (oid p)"
    and "\<forall>p \<in> set (posts s). ObjectId (vt_post_id v) \<noteq> Some (oid p)"
  shows "add_comment (Some s) c now new = (Inl (HTTPException 404 ''Post not found''), Some s)
       \<and> toggle_vote (Some s) v now new = (Inl (HTTPException 404 ''Post not found''), Some s)"
proof -
  have "post_exists s (cc_post_id c) = None" "post_exists s (vt_post_id v) = None"
    using assms by (simp_all add: post_exists_None)
  then show ?thesis
    by (simp add: add_comment_def toggle_vote_def)
qed

theorem unknown_post_is_not_found_witness:
  "add_comment (Some sample_store) \<lparr>cc_post_id = ''nope'', cc_content = ''hi'', cc_author_name = None\<rparr> 7 id_e
     = (Inl (HTTPException 404 ''Post not found''), Some sample_store)
   \<and> toggle_vote (Some sample_store) \<lparr>vt_post_id = str id_e, vt_client_id = ''c1''\<rparr> 7 id_e
     = (Inl (HTTPException 404 ''Post not found''), Some sample_store)"
proof -
  let ?c = "\<lparr>cc_post_id = ''nope'', cc_content = ''hi'', cc_author_name = None\<rparr>"
  let ?v = "\<lparr>vt_post_id = str id_e, vt_client_id = ''c1''\<rparr>"
  have h1: "\<forall>p \<in> set (posts sample_store). ObjectId (cc_post_id ?c) \<noteq> Some (oid p)"
    by (simp add: ObjectId_eval)
  have h2: "\<forall>p \<in> set (posts sample_store). ObjectId (vt_post_id ?v) \<noteq> Some (oid p)"
    by (simp add: ObjectId_eval sample_defs)
  from unknown_post_is_not_found [OF h1 h2] show ?thesis .
qed

section \<open>Facts about the listing pipeline\<close>

lemma lookup_empty: "lookup p foreign = []"
  by (simp add: lookup_def)

lemma addFields_counts: "votes_count (addFields s p) = 0 \<and> comments_count (addFields s p) = 0"
  by (simp add: addFields_def lookup_empty)

lemma precedes_total: "\<not> precedes k x y \<Longrightarrow> precedes k y x"
  by (cases k) auto

lemma precedes_trans: "precedes k x y \<Longrightarrow> precedes k y z \<Longrightarrow> precedes k x z"
  by (cases k) auto

lemma set_insort_desc: "set (insort_desc k x ys) = insert x (set ys)"
  by (induction ys) auto



lemma length_insort_desc: "length (insort_desc k x ys) = Suc (length ys)"
  by (induction ys) auto

lemma sorted_insort_desc:
  "sorted_wrt (precedes k) ys \<Longrightarrow> sorted_wrt (precedes k) (insort_desc k x ys)"
proof (induction ys)
  case Nil
  then show ?case by simp
next
  case (Cons y ys)
  show ?case
  proof (cases "precedes k x y")
    case True
    with Cons.prems show ?thesis
      by (auto intro: precedes_trans)
  next
    case False
    then have "precedes k y x" by (rule precedes_total)
    with False Cons show ?thesis
      by (auto simp: set_insort_desc)
  qed
qed

lemma sorted_sort_stage: "sorted_wrt (precedes k) (sort_stage k ds)"
  unfolding sort_stage_def by (induction ds) (simp_all add: sorted_insort_desc)

lemma set_sort_stage: "set (sort_stage k ds) = set ds"
  unfolding sort_stage_def by (induction ds) (simp_all add: set_insort_desc)

lemma length_sort_stage: "length (sort_stage k ds) = length ds"
  unfolding sort_stage_def by (induction ds) (simp_all add: length_insort_desc)

lemma length_sorted_stage_output:
  "length (sorted_stage_output s fq k) = count_documents (matches fq) (posts s)"
  by (simp add: sorted_stage_output_def length_sort_stage count_documents_def)


lemma sorted_aggregate: "sorted_wrt (precedes k) (aggregate s fq k skip limit)"
  unfolding aggregate_def
  by (intro sorted_wrt_take sorted_wrt_drop) (simp add: sorted_stage_output_def sorted_sort_stage)


lemma list_posts_Inr:
  assumes "list_posts (Some s) pg ps tf sb now = Inr r"
  defines "P \<equiv> (case pg of None \<Rightarrow> 1 | Some n \<Rightarrow> n)"
    and "S \<equiv> (case ps of None \<Rightarrow> 8 | Some n \<Rightarrow> n)"
    and "T \<equiv> (case tf of None \<Rightarrow> All_time | Some t \<Rightarrow> t)"
    and "K \<equiv> (case sb of None \<Rightarrow> Votes | Some k \<Rightarrow> k)"
  shows "r = \<lparr>items = map to_str_id (aggregate s (filter_q T now) K (nat ((P - 1) * S)) (nat S)),
              total = count_documents (matches (filter_q T now)) (posts s),
              page = P, page_size = S\<rparr>"
  using assms(1) unfolding P_def S_def T_def K_def
  by (auto simp: list_posts_def Query_def Let_def split: option.splits if_splits)


lemma list_posts_overflow:
  assumes "1 \<le> pg" "1 \<le> ps" "ps \<le> 50" "int64_max < (pg - 1) * ps"
  shows "list_posts (Some s) (Some pg) (Some ps) tf sb now = Inl OverflowError"
  using assms by (simp add: list_posts_def Query_def Let_def)





lemma matches_filter_q:
  "matches (filter_q tf now) d =
     (case tf of Week \<Rightarrow> now - 7 * 86400000 \<le> created_at d
               | Month \<Rightarrow> now - 30 * 86400000 \<le> created_at d
               | All_time \<Rightarrow> True)"
  by (cases tf) (simp_all add: matches_def filter_q_def timedelta_days_def)

lemmas list_posts_eval =
  list_posts_def Query_def filter_q_def aggregate_def sorted_stage_output_def sort_stage_def
  addFields_def lookup_def toString_def matches_def to_str_id_def count_documents_def
  isoformat_def timedelta_days_def int64_max_def

section \<open>Listing: total and page\<close>

text \<open>
  C3. The total of a listing is the number of posts whose \<open>created_at\<close> lies in the window
  of the requested timeframe (at least \<open>now\<close> minus 7 days for week, minus 30 days for
  month, every post for all), and for a fixed timeframe it is the same whatever the page,
  the page size and the sort key are.
\<close>

theorem list_posts_total:
  assumes "list_posts (Some s) pg ps (Some tf) sb now = Inr r"
  shows "total r = length (filter (\<lambda>p. case tf of Week \<Rightarrow> now - 7 * 86400000 \<le> created_at p
                                           | Month \<Rightarrow> now - 30 * 86400000 \<le> created_at p
                                           | All_time \<Rightarrow> True) (posts s))
       \<and> (\<forall>pg' ps' sb' r'. list_posts (Some s) pg' ps' (Some tf) sb' now = Inr r' \<longrightarrow> total r' = total r)"
proof -
  let ?w = "\<lambda>p. case tf of Week \<Rightarrow> now - 7 * 86400000 \<le> created_at p
                        | Month \<Rightarrow> now - 30 * 86400000 \<le> created_at p
                        | All_time \<Rightarrow> True"
  have w: "matches (filter_q tf now) = ?w"
    by (rule ext) (rule matches_filter_q)
  have t: "total x = length (filter ?w (posts s))"
    if "list_posts (Some s) a b (Some tf) c now = Inr x" for a b c x
    using list_posts_Inr [OF that] by (simp add: count_documents_def w)
  from t [OF assms] have "\<forall>pg' ps' sb' r'.
      list_posts (Some s) pg' ps' (Some tf) sb' now = Inr r' \<longrightarrow> total r' = total r"
    using t by simp
  with t [OF assms] show ?thesis by blast
qed

theorem list_posts_total_witness:
  "\<exists>r. list_posts (Some sample_store) (Some 1) None (Some Week) (Some Latest) 1000000000 = Inr r
       \<and> total r = 2
       \<and> (\<forall>r'. list_posts (Some sample_store) (Some 2) (Some 1) (Some Week) (Some Votes) 1000000000 = Inr r'
              \<longrightarrow> total r' = 2)"
proof -
  obtain r where h: "list_posts (Some sample_store) (Some 1) None (Some Week) (Some Latest) 1000000000 = Inr r"
    by (simp add: list_posts_def Query_def Let_def int64_max_def)
  note t = list_posts_total [OF h]
  have "length (filter (\<lambda>p. now_minus \<le> created_at p) (posts sample_store)) = 2"
    if "now_minus = 1000000000 - 7 * 86400000" for now_minus :: int
    using that by (simp add: sample_defs)
  then have two: "total r = 2"
    using t by simp
  from t have "\<forall>r'. list_posts (Some sample_store) (Some 2) (Some 1) (Some Week) (Some Votes) 1000000000 = Inr r'
              \<longrightarrow> total r' = total r"
    by blast
  with h two show ?thesis by simp
qed



section \<open>Listing: the vote and comment counts\<close>

text \<open>
  Both \<open>$lookup\<close> stages join on \<open>_id = post_id\<close> before their sub-pipeline compares
  the texts. An ObjectId never equals a string, so every join is empty and both counts
  of every listed post are zero.
\<close>

lemma list_posts_counts_zero:
  assumes "list_posts db pg ps tf sb now = Inr r" and "i \<in> set (items r)"
  shows "item_votes_count i = 0 \<and> item_comments_count i = 0"
proof -
  obtain s where "db = Some s"
    using assms(1) by (cases db) (auto simp: list_posts_def Let_def split: prod.splits if_splits)
  with assms(1) obtain fq k skip limit where "items r = map to_str_id (aggregate s fq k skip limit)"
    using list_posts_Inr [of s pg ps tf sb now r] by auto
  with assms(2) obtain d where d: "i = to_str_id d" "d \<in> set (aggregate s fq k skip limit)"
    by auto
  have "set (aggregate s fq k skip limit) \<subseteq> set (sorted_stage_output s fq k)"
    unfolding aggregate_def by (meson set_take_subset set_drop_subset subset_trans)
  also have "\<dots> \<subseteq> addFields s ` set (posts s)"
    unfolding sorted_stage_output_def by (auto simp: set_sort_stage)
  finally obtain p where "d = addFields s p"
    using d(2) by auto
  with d(1) show ?thesis
    using addFields_counts [of s p] by (simp add: to_str_id_def)
qed

text \<open>
  C1 asks that the \<open>votes_count\<close> of every listed post be the number of votes whose
  \<open>post_id\<close> is the text of the post's identifier. The scenario of the specification
  shows the listing doing otherwise: a post is created in an empty store, a client votes
  for it, and the store then holds one vote with the post's identifier as its \<open>post_id\<close>,
  while the listing reports \<open>votes_count = 0\<close> for the post.
\<close>

theorem list_posts_counts_after_vote:
  "(let db1 = snd (create_post (Some empty_store) body_XY 10 id_a);
        db2 = snd (toggle_vote db1 \<lparr>vt_post_id = str id_a, vt_client_id = ''c1''\<rparr> 20 id_d)
    in (case db2 of None \<Rightarrow> [] | Some s \<Rightarrow> map (\<lambda>p. (str (oid p), text_count (str (oid p)) (votes s))) (posts s))
         = [(str id_a, 1)]
       \<and> (case list_posts db2 None None (Some All_time) (Some Latest) 30 of
             Inl e \<Rightarrow> []
           | Inr r \<Rightarrow> map (\<lambda>i. (item_id i, item_votes_count i)) (items r))
         = [(str id_a, 0)])"
  by (simp add: create_post_def validate_PostCreate_def create_document_def insert_one_def
      PostSchema_def VoteSchema_def toggle_vote_def post_exists_def find_one_def ObjectId_eval
      text_count_def list_posts_eval empty_store_def body_XY_def id_a_def id_d_def)

text \<open>
  C4 asks that a listing sorted by votes (by comments) put its items in the descending
  order of their vote (comment) counts, the newer first among equals. With both counts
  zero on every post, the two sorts order by \<open>created_at\<close> alone: in the store below the
  older post has two votes and two comments and the newer post none, and both listings
  put the newer post first.
\<close>

theorem list_posts_by_count_ranking:
  "map (\<lambda>p. (title p, text_count (str (oid p)) (votes ranking_store),
               text_count (str (oid p)) (comments ranking_store))) (posts ranking_store)
     = [(''A'', 2, 2), (''B'', 0, 0)]
   \<and> (case list_posts (Some ranking_store) None None None (Some Votes) 30 of
         Inl e \<Rightarrow> []
       | Inr r \<Rightarrow> map (\<lambda>i. (item_title i, item_votes_count i)) (items r))
     = [(''B'', 0), (''A'', 0)]
   \<and> (case list_posts (Some ranking_store) None None None (Some Comments) 30 of
         Inl e \<Rightarrow> []
       | Inr r \<Rightarrow> map (\<lambda>i. (item_title i, item_comments_count i)) (items r))
     = [(''B'', 0), (''A'', 0)]"
  by (simp add: text_count_def list_posts_eval ranking_store_def sample_post_def sample_vote_def
      sample_comment_def id_a_def id_b_def id_c_def id_d_def)

lemma list_posts_bare_call:
  "list_posts db None None None None now = list_posts db (Some 1) (Some 8) (Some All_time) (Some Votes) now"
  by (simp add: list_posts_def Query_def)

text \<open>
  C10 asks that a listing call without parameters use page 1, page size 8, timeframe all
  and sort key votes, and so return the first 8 of all posts in the order of their vote
  counts. The defaults are applied (\<open>list_posts_bare_call\<close>), and the response shows page
  1, page size 8 and the total of all posts; but on the store above the post without
  votes stands before the post with two.
\<close>

theorem list_posts_bare_call_ranking:
  "(case list_posts (Some ranking_store) None None None None 30 of
      Inl e \<Rightarrow> None
    | Inr r \<Rightarrow> Some (page r, page_size r, total r, map item_title (items r)))
     = Some (1, 8, 2, [''B'', ''A''])
   \<and> map (\<lambda>p. (title p, text_count (str (oid p)) (votes ranking_store))) (posts ranking_store)
     = [(''A'', 2), (''B'', 0)]"
  by (simp add: text_count_def list_posts_eval ranking_store_def sample_post_def sample_vote_def
      sample_comment_def id_a_def id_b_def id_c_def id_d_def)

section \<open>Post creation\<close>

lemma validate_PostCreate_missing:
  "body_title b = None \<or> body_description b = None \<Longrightarrow>
     \<exists>fields. fields \<noteq> [] \<and> validate_PostCreate b = Inl (RequestValidationError fields)"
  by (auto simp: validate_PostCreate_def missing_def split: option.splits)

lemma validate_PostCreate_present:
  "body_title b = Some t \<Longrightarrow> body_description b = Some d \<Longrightarrow>
     validate_PostCreate b =
       Inr \<lparr>pc_title = t, pc_description = d, pc_link = body_link b,
            pc_tags = (case body_tags b of None \<Rightarrow> [] | Some ts \<Rightarrow> ts),
            pc_author_name = body_author_name b\<rparr>"
  by (simp add: validate_PostCreate_def)

text \<open>
  C8 has a post creation with an empty title or description fail validation. The request
  model only requires the two fields to be present: a request whose title is the empty
  text passes validation and its post is stored.
\<close>

theorem create_post_empty_title_counterexample:
  "body_title body_empty_title = Some []
   \<and> create_post (Some empty_store) body_empty_title 10 id_a =
       (Inr (str id_a),
        Some \<lparr>posts = [\<lparr>oid = id_a, created_at = 10, updated_at = 10, title = [],
                         description = ''Y'', link = None, tags = [], author_name = None\<rparr>],
              comments = [], votes = []\<rparr>)"
  by (simp add: create_post_def validate_PostCreate_def create_document_def insert_one_def
      PostSchema_def empty_store_def body_empty_title_def)

text \<open>
  C8, as the code has it. A post creation in which \<open>title\<close> or \<open>description\<close> is absent
  fails with a validation error that names a field, before the store is looked at and
  leaving it unchanged; a post is created only when both are present; and when both are
  present, whatever their texts, and the generated identifier is new to the collection,
  the post is stored with these texts and \<open>created_at = updated_at = now\<close>.
\<close>

theorem create_post_requires_fields:
  "(body_title b = None \<or> body_description b = None \<longrightarrow>
      (\<exists>fields. fields \<noteq> [] \<and> create_post db b now new = (Inl (RequestValidationError fields), db)))
   \<and> (\<forall>i db'. create_post db b now new = (Inr i, db') \<longrightarrow>
         body_title b \<noteq> None \<and> body_description b \<noteq> None)
   \<and> (\<forall>t d s. body_title b = Some t \<and> body_description b = Some d \<and> new \<notin> oid ` set (posts s) \<longrightarrow>
         create_post (Some s) b now new =
           (Inr (str new),
            Some (s\<lparr>posts := posts s @
                      [\<lparr>oid = new, created_at = now, updated_at = now, title = t, description = d,
                        link = body_link b,
                        tags = (case body_tags b of None \<Rightarrow> [] | Some ts \<Rightarrow> ts),
                        author_name = body_author_name b\<rparr>]\<rparr>)))"
proof (intro conjI impI allI)
  assume "body_title b = None \<or> body_description b = None"
  from validate_PostCreate_missing [OF this]
  obtain fields where "fields \<noteq> []" "validate_PostCreate b = Inl (RequestValidationError fields)"
    by (elim exE conjE)
  then have "fields \<noteq> [] \<and> create_post db b now new = (Inl (RequestValidationError fields), db)"
    by (simp add: create_post_def)
  then show "\<exists>fields. fields \<noteq> [] \<and> create_post db b now new = (Inl (RequestValidationError fields), db)"
    by (rule exI)
next
  fix i db'
  assume ok: "create_post db b now new = (Inr i, db')"
  have "validate_PostCreate b \<noteq> Inl e" for e
  proof
    assume "validate_PostCreate b = Inl e"
    then have "create_post db b now new = (Inl e, db)"
      by (simp add: create_post_def)
    with ok show False by simp
  qed
  with validate_PostCreate_missing [of b]
  have "\<not> (body_title b = None \<or> body_description b = None)"
    by metis
  then show "body_title b \<noteq> None" and "body_description b \<noteq> None"
    by simp_all
next
  fix t d and s :: store
  assume "body_title b = Some t \<and> body_description b = Some d \<and> new \<notin> oid ` set (posts s)"
  then show "create_post (Some s) b now new =
           (Inr (str new),
            Some (s\<lparr>posts := posts s @
                      [\<lparr>oid = new, created_at = now, updated_at = now, title = t, description = d,
                        link = body_link b,
                        tags = (case body_tags b of None \<Rightarrow> [] | Some ts \<Rightarrow> ts),
                        author_name = body_author_name b\<rparr>]\<rparr>))"
    by (simp add: create_post_def validate_PostCreate_present create_document_def insert_one_def
        PostSchema_def)
qed

theorem create_post_requires_fields_witness:
  "create_post (Some empty_store) (body_XY\<lparr>body_title := None\<rparr>) 10 id_a
       = (Inl (RequestValidationError [''title'']), Some empty_store)
   \<and> create_post (Some empty_store) body_empty_title 10 id_a =
       (Inr (str id_a),
        Some (empty_store\<lparr>posts := [\<lparr>oid = id_a, created_at = 10, updated_at = 10, title = [],
                         description = ''Y'', link = None, tags = [], author_name = None\<rparr>]\<rparr>))"
proof -
  let ?b = "body_XY\<lparr>body_title := None\<rparr>"
  note T1 = create_post_requires_fields [of ?b "Some empty_store" 10 id_a]
  note T2 = create_post_requires_fields [of body_empty_title "Some empty_store" 10 id_a]
  have m: "body_title ?b = None \<or> body_description ?b = None"
    by simp
  from T1 have "body_title ?b = None \<or> body_description ?b = None \<longrightarrow>
      (\<exists>fields. fields \<noteq> [] \<and> create_post (Some empty_store) ?b 10 id_a
                   = (Inl (RequestValidationError fields), Some empty_store))"
    by (rule conjunct1)
  with m obtain fields where f: "create_post (Some empty_store) ?b 10 id_a
       = (Inl (RequestValidationError fields), Some empty_store)"
    by (elim impE exE conjE)
  have "fst (create_post (Some empty_store) ?b 10 id_a) = Inl (RequestValidationError [''title''])"
    by (simp add: create_post_def validate_PostCreate_def missing_def body_XY_def)
  with f have first: "create_post (Some empty_store) ?b 10 id_a
       = (Inl (RequestValidationError [''title'']), Some empty_store)"
    by simp
  have p: "body_title body_empty_title = Some [] \<and> body_description body_empty_title = Some ''Y''
            \<and> id_a \<notin> oid ` set (posts empty_store)"
    by (simp add: body_empty_title_def empty_store_def)
  from T2 have "\<forall>t d s. body_title body_empty_title = Some t \<and> body_description body_empty_title = Some d
                  \<and> id_a \<notin> oid ` set (posts s) \<longrightarrow>
         create_post (Some s) body_empty_title 10 id_a =
           (Inr (str id_a),
            Some (s\<lparr>posts := posts s @
                      [\<lparr>oid = id_a, created_at = 10, updated_at = 10, title = t, description = d,
                        link = body_link body_empty_title,
                        tags = (case body_tags body_empty_title of None \<Rightarrow> [] | Some ts \<Rightarrow> ts),
                        author_name = body_author_name body_empty_title\<rparr>]\<rparr>))"
    by (rule conjunct2 [THEN conjunct2])
  then have "body_title body_empty_title = Some [] \<and> body_description body_empty_title = Some ''Y''
                  \<and> id_a \<notin> oid ` set (posts empty_store) \<longrightarrow>
         create_post (Some empty_store) body_empty_title 10 id_a =
           (Inr (str id_a),
            Some (empty_store\<lparr>posts := posts empty_store @
                      [\<lparr>oid = id_a, created_at = 10, updated_at = 10, title = [], description = ''Y'',
                        link = body_link body_empty_title,
                        tags = (case body_tags body_empty_title of None \<Rightarrow> [] | Some ts \<Rightarrow> ts),
                        author_name = body_author_name body_empty_title\<rparr>]\<rparr>))"
    by (elim allE)
  with p have "create_post (Some empty_store) body_empty_title 10 id_a =
           (Inr (str id_a),
            Some (empty_store\<lparr>posts := posts empty_store @
                      [\<lparr>oid = id_a, created_at = 10, updated_at = 10, title = [], description = ''Y'',
                        link = body_link body_empty_title,
                        tags = (case body_tags body_empty_title of None \<Rightarrow> [] | Some ts \<Rightarrow> ts),
                        author_name = body_author_name body_empty_title\<rparr>]\<rparr>))"
    by (rule rev_mp)
  then have second: "create_post (Some empty_store) body_empty_title 10 id_a =
       (Inr (str id_a),
        Some (empty_store\<lparr>posts := [\<lparr>oid = id_a, created_at = 10, updated_at = 10, title = [],
                         description = ''Y'', link = None, tags = [], author_name = None\<rparr>]\<rparr>))"
    by (simp add: body_empty_title_def empty_store_def)
  from first second show ?thesis by (rule conjI)
qed

section \<open>Listing the comments of a post\<close>

text \<open>
  The handlers keep the data model's rule that the \<open>post_id\<close> of every stored comment
  resolves to a stored post: posts are only ever appended, and a comment is appended only
  after its post was found.
\<close>

lemma post_exists_append:
  "post_exists s text = Some p \<Longrightarrow> posts s' = posts s @ rest \<Longrightarrow> post_exists s' text = Some p"
  by (auto simp: post_exists_def find_one_append_old split: option.splits)

lemma create_post_appends:
  "snd (create_post db body now new) = Some s' \<Longrightarrow>
     \<exists>s rest. db = Some s \<and> posts s' = posts s @ rest \<and> comments s' = comments s"
  by (auto simp: create_post_def create_document_def insert_one_def
           split: sum.splits option.splits prod.splits if_splits)

lemma add_comment_appends:
  "snd (add_comment db payload now new) = Some s' \<Longrightarrow>
     \<exists>s. db = Some s \<and> posts s' = posts s \<and>
       (comments s' = comments s \<or>
        (\<exists>c. comments s' = comments s @ [c] \<and> post_exists s (post_id c) \<noteq> None))"
  by (auto simp: add_comment_def create_document_def insert_one_def CommentSchema_def
           split: sum.splits option.splits prod.splits if_splits)

lemma toggle_vote_keeps_posts:
  "snd (toggle_vote db payload now new) = Some s' \<Longrightarrow>
     \<exists>s. db = Some s \<and> posts s' = posts s \<and> comments s' = comments s"
  by (auto simp: toggle_vote_def split: sum.splits option.splits prod.splits)

lemma step_keeps_references:
  assumes "db = Some s" "comments_reference_posts s" "step db req now new = Some s'"
  shows "comments_reference_posts s'"
proof (cases req)
  case (CreatePost body)
  with assms(3) have "snd (create_post db body now new) = Some s'" by simp
  from create_post_appends [OF this] assms(1)
  obtain rest where "posts s' = posts s @ rest" "comments s' = comments s" by auto
  then have "post_exists s' t \<noteq> None" if "post_exists s t \<noteq> None" for t
    using that post_exists_append [of s t _ s' rest] by auto
  with assms(2) \<open>comments s' = comments s\<close> show ?thesis
    by (simp add: comments_reference_posts_def list_all_iff)
next
  case (AddComment payload)
  with assms(3) have "snd (add_comment db payload now new) = Some s'" by simp
  from add_comment_appends [OF this] assms(1)
  have p: "posts s' = posts s"
    and c: "comments s' = comments s \<or>
        (\<exists>c. comments s' = comments s @ [c] \<and> post_exists s (post_id c) \<noteq> None)"
    by auto
  have "post_exists s' t = post_exists s t" for t
    using p by (rule post_exists_posts)
  with assms(2) c show ?thesis
    by (auto simp: comments_reference_posts_def list_all_iff)
next
  case (ToggleVote payload)
  with assms(3) have "snd (toggle_vote db payload now new) = Some s'" by simp
  from toggle_vote_keeps_posts [OF this] assms(1)
  have p: "posts s' = posts s" and c: "comments s' = comments s" by auto
  have "post_exists s' t = post_exists s t" for t
    using p by (rule post_exists_posts)
  with assms(2) c show ?thesis
    by (simp add: comments_reference_posts_def list_all_iff)
qed (use assms in auto)

text \<open>
  C9. For every text \<open>post_id\<close> the comment listing succeeds with the comments whose
  \<open>post_id\<close> field is that text; it makes no check that the post exists, so for a
  \<open>post_id\<close> that resolves to no stored post it answers with the empty list, where comment
  creation and vote toggle answer not-found.
\<close>

theorem list_comments_by_text:
  "list_comments (Some s) pid = Inr (map to_str_id_comment (filter (\<lambda>c. post_id c = pid) (comments s)))
   \<and> (comments_reference_posts s \<and> post_exists s pid = None \<longrightarrow> list_comments (Some s) pid = Inr [])"
proof -
  have "filter (\<lambda>c. post_id c = pid) (comments s) = []"
    if "comments_reference_posts s" "post_exists s pid = None"
    using that by (auto simp: comments_reference_posts_def list_all_iff filter_empty_conv)
  then show ?thesis
    by (simp add: list_comments_def get_documents_def)
qed

theorem list_comments_by_text_witness:
  "comments_reference_posts sample_store
   \<and> post_exists sample_store (str id_e) = None
   \<and> list_comments (Some sample_store) (str id_e) = Inr []
   \<and> list_comments (Some sample_store) (str id_a) =
       Inr [\<lparr>citem_id = str id_d, citem_created_at = IsoFormat 6, citem_updated_at = IsoFormat 6,
             citem_post_id = str id_a, citem_author_name = Some ''Guest'', citem_content = ''Love this!''\<rparr>]"
proof -
  have r: "comments_reference_posts sample_store"
    by (simp add: comments_reference_posts_def post_exists_def find_one_def ObjectId_eval sample_defs)
  have n: "post_exists sample_store (str id_e) = None"
    by (simp add: post_exists_def find_one_def ObjectId_eval sample_defs)
  from list_comments_by_text [of sample_store "str id_e"] r n
  have e: "list_comments (Some sample_store) (str id_e) = Inr []"
    by (elim conjE impE) simp_all
  from list_comments_by_text [of sample_store "str id_a"]
  have "list_comments (Some sample_store) (str id_a)
          = Inr (map to_str_id_comment (filter (\<lambda>c. post_id c = str id_a) (comments sample_store)))"
    by (elim conjE)
  then have a: "list_comments (Some sample_store) (str id_a) =
       Inr [\<lparr>citem_id = str id_d, citem_created_at = IsoFormat 6, citem_updated_at = IsoFormat 6,
             citem_post_id = str id_a, citem_author_name = Some ''Guest'', citem_content = ''Love this!''\<rparr>]"
    by (simp add: to_str_id_comment_def isoformat_def sample_defs)
  from r n e a show ?thesis by simp
qed

end
